theory Spec2Isabelle
  imports Main "HOL-Library.Word"
begin

section \<open>Data model\<close>

text \<open>
  The C type \<^verbatim>\<open>int\<close> of the watch's 32-bit ARM target is a 32-bit two's complement
  integer.  It is modelled as a 32-bit word.  The signed reading of a word is \<open>sint\<close>, and
  the signed comparisons of C are \<open><s\<close> and \<open>\<le>s\<close>.  C leaves an overflow of signed
  arithmetic undefined; the model computes what the target's instructions compute, the
  result modulo \<open>2 ^ 32\<close>.  The facts below that depend on the absence of overflow say so
  in their hypotheses.
\<close>

type_synonym c_int = "32 word"

text \<open>\<^verbatim>\<open>typedef struct { int hour; int minute; } day_time;\<close>\<close>

record day_time =
  hour :: c_int
  minute :: c_int

text \<open>The constructor macro \<^verbatim>\<open>#define day_time(h, m) ((day_time){(h), (m)})\<close>.\<close>

definition day_time :: "c_int \<Rightarrow> c_int \<Rightarrow> day_time" where
  "day_time h m = \<lparr>hour = h, minute = m\<rparr>"

section \<open>The parameters\<close>

definition bus_number :: string where
  "bus_number = ''700''"

text \<open>The array \<^verbatim>\<open>schedule\<close>, in stored order.\<close>

definition schedule :: "day_time list" where
  "schedule =
    [
     day_time 5 47, day_time 6 6, day_time 6 25, day_time 6 45, day_time 7 6, day_time 7 21,
     day_time 7 37, day_time 7 53, day_time 8 9, day_time 8 25, day_time 8 40, day_time 9 7,
     day_time 9 29, day_time 9 51, day_time 10 14, day_time 10 36, day_time 10 58, day_time 11 19,
     day_time 11 40, day_time 12 2, day_time 12 23, day_time 12 44, day_time 13 6, day_time 13 27,
     day_time 13 48, day_time 14 10, day_time 14 26, day_time 14 42, day_time 14 58, day_time 15 14,
     day_time 15 30, day_time 15 46, day_time 16 7, day_time 16 28, day_time 16 50, day_time 17 6,
     day_time 17 22, day_time 17 38, day_time 17 54, day_time 18 10, day_time 18 26, day_time 18 42,
     day_time 18 58, day_time 19 14, day_time 19 30, day_time 19 54, day_time 20 18, day_time 20 42,
     day_time 21 5, day_time 21 24, day_time 21 43, day_time 22 3, day_time 22 22, day_time 22 41,
     day_time 23 1, day_time 23 20, day_time 23 39, day_time 23 59, day_time 0 18, day_time 0 37
    ]"

text \<open>\<^verbatim>\<open>schedule_size = sizeof(schedule)/sizeof(schedule[0])\<close>: the number of entries.\<close>

definition schedule_size :: nat where
  "schedule_size = length schedule"

section \<open>Comparison\<close>

text \<open>
  \<^verbatim>\<open>static int compare(day_time a, day_time b)\<close>: hours first, then the difference of
  the minutes (a 32-bit subtraction).
\<close>

definition compare :: "day_time \<Rightarrow> day_time \<Rightarrow> c_int" where
  "compare a b =
     (if hour a <s hour b then - 1
      else if hour a = hour b then minute a - minute b
      else 1)"

section \<open>The next arrival\<close>

text \<open>
  The \<^verbatim>\<open>for\<close> loop of \<^verbatim>\<open>next_arrival\<close>, started at index \<open>i\<close>: it returns the
  first entry at or after \<open>i\<close> with \<^verbatim>\<open>compare(schedule[i], now) > 0\<close>, or falls through
  (\<open>None\<close>) when \<open>i\<close> reaches the size of the array.  The array is a parameter, so that the
  same text can be read against any timetable; its size is the length of the list.  The
  program's own array is \<open>schedule\<close>, of size \<open>schedule_size\<close>.
\<close>

function next_arrival_loop :: "day_time list \<Rightarrow> nat \<Rightarrow> day_time \<Rightarrow> day_time option" where
  "next_arrival_loop sched i now =
     (if i < length sched then
        (if 0 <s compare (sched ! i) now then Some (sched ! i)
         else next_arrival_loop sched (i + 1) now)
      else None)"
  by pat_completeness auto
termination
  by (relation "measure (\<lambda>(sched, i, now). length sched - i)") auto

declare next_arrival_loop.simps [simp del]

text \<open>
  After the loop the code reads \<^verbatim>\<open>schedule[0]\<close> and adds 24 to its hour.  For an array
  with no element that read is outside the array, which C leaves undefined: the model
  assigns it no value and returns a fault.  The program's own array has 60 entries, so on
  \<open>schedule\<close> this branch is never taken.
\<close>

datatype fault = Out_Of_Bounds

definition next_arrival_in :: "day_time list \<Rightarrow> day_time \<Rightarrow> fault + day_time" where
  "next_arrival_in sched now =
     (case next_arrival_loop sched 0 now of
        Some e \<Rightarrow> Inr e
      | None \<Rightarrow>
          (if 0 < length sched then
             (let a = sched ! 0 in Inr (a\<lparr>hour := hour a + 24\<rparr>))
           else Inl Out_Of_Bounds))"

text \<open>\<^verbatim>\<open>day_time next_arrival(day_time now)\<close> on the compiled-in array.\<close>

definition next_arrival :: "day_time \<Rightarrow> fault + day_time" where
  "next_arrival now = next_arrival_in schedule now"

section \<open>Difference in minutes\<close>

text \<open>
  \<^verbatim>\<open>int minutes_difference(const day_time* next, const day_time* now)\<close>.  Both
  arguments are only read, so they are passed by value.
\<close>

definition minutes_difference :: "day_time \<Rightarrow> day_time \<Rightarrow> c_int" where
  "minutes_difference next now =
     (let mins = minute next - minute now;
          carry = 0;
          (mins, carry) = (if mins <s 0 then (mins + 60, 1) else (mins, carry))
      in mins + (hour next - hour now - carry) * 60)"

text \<open>
  The total-minutes formulation of the specification: a Clock-Point is the number of
  minutes since midnight of day 0, and the duration is the difference of two such numbers
  (in the same 32-bit arithmetic).
\<close>

definition total_minutes :: "day_time \<Rightarrow> c_int" where
  "total_minutes a = hour a * 60 + minute a"

definition total_minutes_difference :: "day_time \<Rightarrow> day_time \<Rightarrow> c_int" where
  "total_minutes_difference next now = total_minutes next - total_minutes now"

section \<open>Formatting\<close>

text \<open>The decimal digits of a natural number, most significant first.\<close>

fun digits :: "nat \<Rightarrow> string" where
  "digits n =
     (if n < 10 then [char_of (48 + n)]
      else digits (n div 10) @ [char_of (48 + n mod 10)])"

declare digits.simps [simp del]

text \<open>The conversions \<^verbatim>\<open>%d\<close> and \<^verbatim>\<open>%02d\<close> of \<^verbatim>\<open>snprintf\<close> for an \<^verbatim>\<open>int\<close>.\<close>

definition fmt_d :: "c_int \<Rightarrow> string" where
  "fmt_d x = (if sint x < 0 then CHR ''-'' # digits (nat (- sint x)) else digits (nat (sint x)))"

definition fmt_02d :: "c_int \<Rightarrow> string" where
  "fmt_02d x = (let s = fmt_d x in replicate (2 - length s) CHR ''0'' @ s)"

text \<open>
  \<^verbatim>\<open>snprintf(buf, size, ...)\<close> keeps at most \<open>size - 1\<close> characters of the formatted
  text.
\<close>

definition snprintf :: "nat \<Rightarrow> string \<Rightarrow> string" where
  "snprintf n s = take (n - 1) s"

section \<open>The refresh\<close>

text \<open>
  \<^verbatim>\<open>update_content\<close> reads the wall clock into \<open>now\<close> and sets the texts of the two
  layers \<^verbatim>\<open>counter\<close> and \<^verbatim>\<open>details\<close>.  The clock reading is the argument of the
  model and the two texts are its result.
\<close>

record content =
  counter_text :: string
  details_text :: string

definition update_content_in :: "day_time list \<Rightarrow> day_time \<Rightarrow> fault + content" where
  "update_content_in sched now =
     (case next_arrival_in sched now of
        Inl f \<Rightarrow> Inl f
      | Inr a \<Rightarrow>
          (let mins = minutes_difference a now;
               counter = (if 60 <s mins then ''60+m'' else snprintf 10 (fmt_d mins @ ''m''));
               a = (if 24 <s hour a then a\<lparr>hour := hour a - 24\<rparr> else a);
               details = snprintf 20
                 (bus_number @ '':  '' @ fmt_d (hour a) @ '':'' @ fmt_02d (minute a))
           in Inr \<lparr>counter_text = counter, details_text = details\<rparr>))"

definition update_content :: "day_time \<Rightarrow> fault + content" where
  "update_content now = update_content_in schedule now"

section \<open>Ranges of the inputs\<close>

text \<open>
  A minute of the clock lies in \<open>[0, 59]\<close>; a wall-clock reading (\<^verbatim>\<open>tm_hour\<close>,
  \<^verbatim>\<open>tm_min\<close> of \<^verbatim>\<open>localtime\<close>) has its hour in \<open>[0, 23]\<close> as well.
\<close>

definition valid_minute :: "day_time \<Rightarrow> bool" where
  "valid_minute a \<longleftrightarrow> 0 \<le>s minute a \<and> minute a \<le>s 59"

definition valid_now :: "day_time \<Rightarrow> bool" where
  "valid_now a \<longleftrightarrow> 0 \<le>s hour a \<and> hour a \<le>s 23 \<and> 0 \<le>s minute a \<and> minute a \<le>s 59"

text \<open>
  The order that the specification states for a timetable: every entry compares less than
  or equal to its successor under \<open>compare\<close>.
\<close>

fun ascending :: "day_time list \<Rightarrow> bool" where
  "ascending (a # b # rest) \<longleftrightarrow> compare a b \<le>s 0 \<and> ascending (b # rest)"
| "ascending _ \<longleftrightarrow> True"

section \<open>Auxiliary facts\<close>

subsection \<open>32-bit arithmetic without overflow\<close>

lemma sint_sub_small:
  fixes a b :: c_int
  assumes "- 2147483648 \<le> sint a - sint b" "sint a - sint b < 2147483648"
  shows "sint (a - b) = sint a - sint b"
proof -
  have "sint (a - b) = signed_take_bit 31 (sint a - sint b)"
    by (simp add: sint_word_ariths)
  also have "\<dots> = sint a - sint b"
    using assms by (intro signed_take_bit_int_eq_self) simp_all
  finally show ?thesis .
qed

lemma sint_of_int_small:
  assumes "- 2147483648 \<le> k" "k < 2147483648"
  shows "sint (word_of_int k :: c_int) = k"
  using assms by (simp add: sint_sbintrunc' signed_take_bit_int_eq_self)

lemma md_ring: "minutes_difference next now = total_minutes_difference next now"
  by (simp add: minutes_difference_def total_minutes_difference_def total_minutes_def Let_def algebra_simps)

lemma total_minutes_difference_of_int:
  "total_minutes_difference next now =
     word_of_int ((sint (hour next) * 60 + sint (minute next)) - (sint (hour now) * 60 + sint (minute now)))"
  by (simp add: total_minutes_difference_def total_minutes_def)

subsection \<open>The loop\<close>

lemma loop_None_iff:
  "next_arrival_loop sched i now = None \<longleftrightarrow>
     (\<forall>j. i \<le> j \<and> j < length sched \<longrightarrow> \<not> 0 <s compare (sched ! j) now)"
proof (induction sched i now rule: next_arrival_loop.induct)
  case (1 sched i now)
  show ?case
  proof (cases "i < length sched")
    case False
    then show ?thesis by (auto simp add: next_arrival_loop.simps [of sched i now])
  next
    case True
    show ?thesis
    proof (cases "0 <s compare (sched ! i) now")
      case hit: True
      with True show ?thesis
        by (auto simp add: next_arrival_loop.simps [of sched i now])
    next
      case miss: False
      have "(\<forall>j. i \<le> j \<and> j < length sched \<longrightarrow> \<not> 0 <s compare (sched ! j) now) \<longleftrightarrow>
            (\<forall>j. i + 1 \<le> j \<and> j < length sched \<longrightarrow> \<not> 0 <s compare (sched ! j) now)"
        using miss by (metis Suc_eq_plus1 Suc_leI le_neq_implies_less add_leD1)
      with True miss "1.IH" show ?thesis
        by (simp add: next_arrival_loop.simps [of sched i now])
    qed
  qed
qed

lemma loop_Some:
  "next_arrival_loop sched i now = Some e \<Longrightarrow>
     \<exists>k. i \<le> k \<and> k < length sched \<and> e = sched ! k \<and> 0 <s compare (sched ! k) now \<and>
         (\<forall>j. i \<le> j \<and> j < k \<longrightarrow> \<not> 0 <s compare (sched ! j) now)"
proof (induction sched i now rule: next_arrival_loop.induct)
  case (1 sched i now)
  show ?case
  proof (cases "i < length sched")
    case False
    with "1.prems" show ?thesis by (simp add: next_arrival_loop.simps [of sched i now])
  next
    case True
    show ?thesis
    proof (cases "0 <s compare (sched ! i) now")
      case hit: True
      with True "1.prems" have "e = sched ! i"
        by (simp add: next_arrival_loop.simps [of sched i now])
      with True hit show ?thesis by (intro exI [of _ i]) auto
    next
      case miss: False
      with True "1.prems" have "next_arrival_loop sched (i + 1) now = Some e"
        by (simp add: next_arrival_loop.simps [of sched i now])
      from "1.IH" [OF True miss this] obtain k where k:
        "i + 1 \<le> k" "k < length sched" "e = sched ! k" "0 <s compare (sched ! k) now"
        "\<forall>j. i + 1 \<le> j \<and> j < k \<longrightarrow> \<not> 0 <s compare (sched ! j) now"
        by blast
      have "\<forall>j. i \<le> j \<and> j < k \<longrightarrow> \<not> 0 <s compare (sched ! j) now"
      proof (intro allI impI)
        fix j assume j: "i \<le> j \<and> j < k"
        show "\<not> 0 <s compare (sched ! j) now"
        proof (cases "j = i")
          case True then show ?thesis using miss by simp
        next
          case False
          with j have "i + 1 \<le> j \<and> j < k" by simp
          with k(5) show ?thesis by blast
        qed
      qed
      with k show ?thesis by (intro exI [of _ k]) simp
    qed
  qed
qed

subsection \<open>Comparison and difference on clock values\<close>

lemma compare_pos_iff:
  assumes "valid_minute a" "valid_minute b"
  shows "0 <s compare a b \<longleftrightarrow> hour b <s hour a \<or> (hour a = hour b \<and> minute b <s minute a)"
proof -
  have m: "0 \<le> sint (minute a)" "sint (minute a) \<le> 59" "0 \<le> sint (minute b)" "sint (minute b) \<le> 59"
    using assms by (simp_all add: valid_minute_def word_sle_eq)
  then have "sint (minute a - minute b) = sint (minute a) - sint (minute b)"
    by (intro sint_sub_small) simp_all
  then have d: "0 <s minute a - minute b \<longleftrightarrow> minute b <s minute a"
    by (simp add: word_sless_alt)
  have h: "\<not> hour a <s hour b \<Longrightarrow> hour a \<noteq> hour b \<Longrightarrow> hour b <s hour a"
    by (simp add: signed.not_less signed.le_less)
  have h': "hour a <s hour b \<Longrightarrow> \<not> hour b <s hour a \<and> hour a \<noteq> hour b"
    by (auto simp add: signed.less_asym)
  have neg: "\<not> (0::c_int) <s - 1" and pos: "(0::c_int) <s 1"
    by (simp_all add: word_sless_alt)
  show ?thesis
    unfolding compare_def using d h h' neg pos by auto
qed

lemma minutes_difference_sint:
  assumes "valid_minute next" "valid_minute now"
    and "0 \<le>s hour next" "hour next \<le>s 35791393" "0 \<le>s hour now" "hour now \<le>s 35791393"
  shows "sint (minutes_difference next now) =
     (sint (hour next) * 60 + sint (minute next)) - (sint (hour now) * 60 + sint (minute now))"
proof -
  have b: "0 \<le> sint (minute next)" "sint (minute next) \<le> 59" "0 \<le> sint (minute now)" "sint (minute now) \<le> 59"
     "0 \<le> sint (hour next)" "sint (hour next) \<le> 35791393" "0 \<le> sint (hour now)" "sint (hour now) \<le> 35791393"
    using assms by (simp_all add: valid_minute_def word_sle_eq)
  show ?thesis
    unfolding md_ring total_minutes_difference_of_int
    using b by (intro sint_of_int_small) linarith+
qed

subsection \<open>The compiled-in timetable\<close>

lemma schedule_length: "length schedule = 60"
  by (simp add: schedule_def)

lemma schedule_first: "schedule ! 0 = day_time 5 47"
  by (simp add: schedule_def)

lemma wrapped_first: "(schedule ! 0)\<lparr>hour := hour (schedule ! 0) + 24\<rparr> = day_time 29 47"
  by (simp add: schedule_first day_time_def)

lemma schedule_entries_valid: "e \<in> set schedule \<Longrightarrow> valid_now e"
  by (auto simp add: schedule_def valid_now_def day_time_def word_sle_eq)

lemma next_arrival_None:
  "next_arrival_loop schedule 0 now = None \<Longrightarrow> next_arrival now = Inr (day_time 29 47)"
  by (simp add: next_arrival_def next_arrival_in_def schedule_length wrapped_first)

lemma next_arrival_Some:
  "next_arrival_loop schedule 0 now = Some e \<Longrightarrow> next_arrival now = Inr e"
  by (simp add: next_arrival_def next_arrival_in_def)

lemma compare_self: "compare a a = 0"
  by (simp add: compare_def)

lemma wrapped_after_valid:
  assumes "valid_now now"
  shows "0 <s compare (day_time 29 47) now"
proof -
  have "valid_minute (day_time 29 47)" "valid_minute now"
    using assms by (simp_all add: valid_minute_def valid_now_def day_time_def word_sle_eq)
  moreover have "hour now <s hour (day_time 29 47)"
    using assms by (simp add: valid_now_def day_time_def word_sle_eq word_sless_alt)
  ultimately show ?thesis by (simp add: compare_pos_iff)
qed

lemma not_pos_iff: "\<not> 0 <s (x::c_int) \<longleftrightarrow> x \<le>s 0"
  by (simp add: signed.not_less)

lemma valid_now_minute: "valid_now a \<Longrightarrow> valid_minute a"
  by (simp add: valid_now_def valid_minute_def)

lemma minutes_difference_pos:
  assumes vm: "valid_minute next" "valid_minute now"
    and hb: "0 \<le>s hour next" "hour next \<le>s 35791393" "0 \<le>s hour now" "hour now \<le>s 35791393"
    and gt: "0 <s compare next now"
  shows "0 < sint (minutes_difference next now)"
proof -
  have m: "0 \<le> sint (minute next)" "sint (minute next) \<le> 59"
      "0 \<le> sint (minute now)" "sint (minute now) \<le> 59"
    using vm by (simp_all add: valid_minute_def word_sle_eq)
  from gt vm have "hour now <s hour next \<or> (hour next = hour now \<and> minute now <s minute next)"
    by (simp add: compare_pos_iff)
  then have "sint (hour now) < sint (hour next) \<or>
      (sint (hour now) = sint (hour next) \<and> sint (minute now) < sint (minute next))"
    by (auto simp add: word_sless_alt)
  with m have "0 < (sint (hour next) * 60 + sint (minute next)) -
      (sint (hour now) * 60 + sint (minute now))"
    by linarith
  then show ?thesis
    using minutes_difference_sint [OF vm hb] by simp
qed

lemma minutes_difference_day:
  assumes "valid_now next" "valid_now now"
  shows "sint (minutes_difference next now) < 1440"
proof -
  have b: "0 \<le> sint (hour next)" "sint (hour next) \<le> 23" "0 \<le> sint (minute next)" "sint (minute next) \<le> 59"
      "0 \<le> sint (hour now)" "sint (hour now) \<le> 23" "0 \<le> sint (minute now)" "sint (minute now) \<le> 59"
    using assms by (simp_all add: valid_now_def word_sle_eq)
  have "sint (minutes_difference next now) =
      (sint (hour next) * 60 + sint (minute next)) - (sint (hour now) * 60 + sint (minute now))"
    using assms b by (intro minutes_difference_sint) (simp_all add: valid_now_minute word_sle_eq)
  with b show ?thesis by linarith
qed

lemma last_of_day:
  assumes "valid_now now" "\<not> 0 <s compare (day_time 23 59) now"
  shows "now = day_time 23 59"
proof -
  have vm: "valid_minute (day_time 23 59)" "valid_minute now"
    using assms(1) by (simp_all add: valid_minute_def valid_now_def day_time_def word_sle_eq)
  from assms(2) vm have "\<not> hour now <s 23" "hour now = 23 \<longrightarrow> \<not> minute now <s 59"
    by (auto simp add: compare_pos_iff day_time_def)
  with assms(1) have "hour now = 23 \<and> minute now = 59"
    by (auto simp add: valid_now_def signed.not_less)
  then show ?thesis by (simp add: day_time_def)
qed

lemma next_arrival_difference:
  assumes "valid_now now"
  shows "\<exists>a. next_arrival now = Inr a \<and> 0 < sint (minutes_difference a now) \<and>
    sint (minutes_difference a now) < 1440"
proof (cases "next_arrival_loop schedule 0 now")
  case None
  then have "\<not> 0 <s compare (schedule ! 57) now"
    by (simp add: loop_None_iff schedule_length)
  moreover have "schedule ! 57 = day_time 23 59" by (simp add: schedule_def)
  ultimately have "now = day_time 23 59"
    using assms by (simp add: last_of_day)
  moreover have "sint (minutes_difference (day_time 29 47) (day_time 23 59)) = 348"
    by code_simp
  ultimately show ?thesis using None by (simp add: next_arrival_None)
next
  case (Some e)
  from loop_Some [OF Some] have e: "e \<in> set schedule" "0 <s compare e now" by auto
  then have ve: "valid_now e" by (simp add: schedule_entries_valid)
  then have "0 \<le>s hour e" "hour e \<le>s 35791393" 
    by (simp_all add: valid_now_def word_sle_eq)
  moreover have "0 \<le>s hour now" "hour now \<le>s 35791393"
    using assms by (simp_all add: valid_now_def word_sle_eq)
  ultimately have "0 < sint (minutes_difference e now)"
    using ve assms e(2) by (intro minutes_difference_pos) (simp_all add: valid_now_minute)
  moreover have "sint (minutes_difference e now) < 1440"
    using ve assms by (rule minutes_difference_day)
  ultimately show ?thesis using Some by (simp add: next_arrival_Some)
qed

subsection \<open>The trailing entries\<close>

lemma early_entry_first:
  assumes "0 <s compare (day_time 0 m) now"
  shows "0 <s compare (day_time 5 47) now"
proof -
  have neg: "\<not> (0::c_int) <s - 1" and pos: "(0::c_int) <s 1"
    by (simp_all add: word_sless_alt)
  from assms neg have "\<not> 0 <s hour now"
    by (auto simp add: compare_def day_time_def)
  then have "sint (hour now) \<le> 0" by (simp add: word_sless_alt)
  then have "\<not> 5 <s hour now" "hour now \<noteq> 5"
    by (auto simp add: word_sless_alt)
  with pos show ?thesis by (simp add: compare_def day_time_def)
qed

lemma loop_first_hit:
  assumes "0 < length sched" "0 <s compare (sched ! 0) now"
  shows "next_arrival_loop sched 0 now = Some (sched ! 0)"
  using assms by (simp add: next_arrival_loop.simps [of sched 0 now])

lemma next_arrival_range:
  assumes "next_arrival now = Inr a"
  shows "a = day_time 29 47 \<or> (a \<in> set schedule \<and> 0 <s compare a now)"
proof (cases "next_arrival_loop schedule 0 now")
  case None
  with assms show ?thesis by (simp add: next_arrival_None)
next
  case (Some e)
  from loop_Some [OF Some] have "e \<in> set schedule" "0 <s compare e now" by auto
  with assms Some show ?thesis by (simp add: next_arrival_Some)
qed

subsection \<open>Formatted texts\<close>

lemma digit_not_plus: "k < 10 \<Longrightarrow> char_of (48 + k :: nat) \<noteq> CHR ''+''"
proof
  assume k: "k < 10" and "char_of (48 + k) = CHR ''+''"
  then have "of_char (char_of (48 + k) :: char) = (of_char CHR ''+'' :: nat)" by simp
  then have "(48 + k) mod 256 = 43" by (simp add: of_char_of)
  with k show False by simp
qed

lemma digits_no_plus: "CHR ''+'' \<notin> set (digits n)"
proof (induction n rule: digits.induct)
  case (1 n)
  show ?case
  proof (cases "n < 10")
    case True
    then show ?thesis
      using digit_not_plus [of n] by (simp add: digits.simps [of n])
  next
    case False
    have "n mod 10 < 10" by simp
    from digit_not_plus [OF this] "1.IH" [OF False] False show ?thesis
      by (simp add: digits.simps [of n])
  qed
qed

lemma fmt_d_no_plus: "CHR ''+'' \<notin> set (fmt_d x)"
  by (simp add: fmt_d_def digits_no_plus)

lemma fmt_d_not_over: "fmt_d x @ ''m'' \<noteq> ''60+m''"
proof
  assume "fmt_d x @ ''m'' = ''60+m''"
  then have "fmt_d x @ ''m'' = ''60+'' @ ''m''" by simp
  then have "fmt_d x = ''60+''" by (simp only: append_same_eq)
  then have "CHR ''+'' \<in> set (fmt_d x)" by simp
  then show False by (simp add: fmt_d_no_plus)
qed

lemma length_digits:
  assumes "n < 100"
  shows "length (digits n) \<le> 2"
proof (cases "n < 10")
  case True
  then show ?thesis by (simp add: digits.simps [of n])
next
  case False
  from assms have "n div 10 < 10" by simp
  then have "length (digits (n div 10)) = 1"
    by (simp add: digits.simps [of "n div 10"])
  with False show ?thesis by (simp add: digits.simps [of n])
qed

lemma length_fmt_d:
  assumes "0 \<le> sint x" "sint x < 100"
  shows "length (fmt_d x) \<le> 2"
  using assms by (simp add: fmt_d_def length_digits)

lemma length_fmt_02d:
  assumes "0 \<le> sint x" "sint x < 100"
  shows "length (fmt_02d x) \<le> 2"
  using length_fmt_d [OF assms] by (simp add: fmt_02d_def Let_def)

lemma snprintf_fits: "length s < n \<Longrightarrow> snprintf n s = s"
  by (simp add: snprintf_def)

lemma shown_hour_range:
  assumes "a = day_time 29 47 \<or> a \<in> set schedule"
  shows "0 \<le>s (if 24 <s hour a then hour a - 24 else hour a) \<and>
         (if 24 <s hour a then hour a - 24 else hour a) \<le>s 23"
  using assms
proof
  assume "a = day_time 29 47"
  then show ?thesis by (simp add: day_time_def word_sless_alt word_sle_eq)
next
  assume "a \<in> set schedule"
  then have v: "valid_now a" by (rule schedule_entries_valid)
  then have "\<not> 24 <s hour a" by (simp add: valid_now_def word_sle_eq word_sless_alt)
  with v show ?thesis by (simp add: valid_now_def)
qed

lemma result_minute_range:
  assumes "a = day_time 29 47 \<or> a \<in> set schedule"
  shows "0 \<le> sint (minute a) \<and> sint (minute a) < 100"
  using assms
proof
  assume "a = day_time 29 47"
  then show ?thesis by (simp add: day_time_def)
next
  assume "a \<in> set schedule"
  then have "valid_now a" by (rule schedule_entries_valid)
  then show ?thesis by (simp add: valid_now_def word_sle_eq)
qed

section \<open>The next arrival lies strictly after now\<close>

text \<open>
  Claim C1.  For every wall-clock reading \<open>now\<close> (hour in \<open>[0, 23]\<close>, minute in
  \<open>[0, 59]\<close>), \<open>next_arrival now\<close> returns a Clock-Point that compares strictly
  greater than \<open>now\<close> under \<open>compare\<close>.  In particular the result is never \<open>now\<close>
  itself: a scheduled entry equal to \<open>now\<close> is not returned.
\<close>

theorem next_arrival_strictly_after:
  assumes "valid_now now"
  shows "\<exists>a. next_arrival now = Inr a \<and> 0 <s compare a now \<and> a \<noteq> now"
proof (cases "next_arrival_loop schedule 0 now")
  case None
  then have "next_arrival now = Inr (day_time 29 47)" by (rule next_arrival_None)
  moreover have gt: "0 <s compare (day_time 29 47) now"
    using assms by (rule wrapped_after_valid)
  moreover from gt have "day_time 29 47 \<noteq> now"
    by (auto simp add: compare_self)
  ultimately show ?thesis by blast
next
  case (Some e)
  then have "next_arrival now = Inr e" by (rule next_arrival_Some)
  moreover from loop_Some [OF Some] have gt: "0 <s compare e now" by blast
  moreover from gt have "e \<noteq> now" by (auto simp add: compare_self)
  ultimately show ?thesis by blast
qed

text \<open>At 5:47, the time of the first entry, the result is the second entry 6:06.\<close>

theorem next_arrival_strictly_after_witness:
  "valid_now (day_time 5 47) \<and> next_arrival (day_time 5 47) = Inr (day_time 6 6) \<and>
   0 <s compare (day_time 6 6) (day_time 5 47) \<and> day_time 6 6 \<noteq> day_time 5 47"
proof -
  have v: "valid_now (day_time 5 47)" by code_simp
  have e: "next_arrival (day_time 5 47) = Inr (day_time 6 6)" by code_simp
  from next_arrival_strictly_after [OF v] e v show ?thesis by auto
qed

section \<open>The scenario at 23:59\<close>

text \<open>
  Claim C2 expects, for \<open>now = (23, 59)\<close>, the result \<open>(24, 18)\<close> and a difference of 19
  minutes.  The code returns \<open>(29, 47)\<close>, 348 minutes away: the entry \<open>(0, 18)\<close> does not
  compare greater than \<open>(23, 59)\<close>, so the loop falls through to the first entry of the
  array.
\<close>

theorem next_arrival_at_23_59:
  "next_arrival (day_time 23 59) = Inr (day_time 29 47) \<and>
   minutes_difference (day_time 29 47) (day_time 23 59) = 348 \<and>
   \<not> 0 <s compare (day_time 0 18) (day_time 23 59)"
  by code_simp

section \<open>The scenario at 0:37\<close>

text \<open>
  Claim C3 as stated (the result at \<open>now = (0, 37)\<close> is \<open>(29, 47)\<close>, through the
  wrap-around, 1750 minutes away) fails: neither the result nor the difference is the
  stated one.
\<close>

theorem next_arrival_at_0_37_not_wrapped:
  "\<not> (\<exists>a. next_arrival (day_time 0 37) = Inr a \<and>
         (a = day_time 29 47 \<or> minutes_difference a (day_time 0 37) = 1750))"
proof -
  have "next_arrival (day_time 0 37) = Inr (day_time 5 47)" by code_simp
  moreover have "day_time 5 47 \<noteq> day_time 29 47" by code_simp
  moreover have "minutes_difference (day_time 5 47) (day_time 0 37) \<noteq> 1750" by code_simp
  ultimately show ?thesis by auto
qed

text \<open>
  Claim C3, amended.  For \<open>now = (0, 37)\<close> the loop stops at its first step: the first
  entry \<open>(5, 47)\<close> compares greater than \<open>now\<close> and is returned with its hour unchanged;
  the difference is 310 minutes.
\<close>

theorem next_arrival_at_0_37:
  "next_arrival_loop schedule 0 (day_time 0 37) = Some (schedule ! 0) \<and>
   next_arrival (day_time 0 37) = Inr (day_time 5 47) \<and>
   minutes_difference (day_time 5 47) (day_time 0 37) = 310"
  by code_simp

section \<open>The order of the timetable\<close>

text \<open>
  Claim C4 states that the array is ascending under \<open>compare\<close> and that every entry has
  its hour in \<open>[0, 23]\<close> and its minute in \<open>[0, 59]\<close>.  The ranges hold.  The order does
  not: the entry \<open>(23, 59)\<close> at index 57 compares greater than its successor \<open>(0, 18)\<close>
  at index 58.  That is the only break: the first 58 entries are ascending, and so are the
  last two.
\<close>

theorem schedule_order_break:
  "schedule ! 57 = day_time 23 59 \<and> schedule ! 58 = day_time 0 18 \<and>
   0 <s compare (schedule ! 57) (schedule ! 58) \<and>
   \<not> ascending schedule \<and>
   ascending (take 58 schedule) \<and> ascending (drop 58 schedule) \<and>
   list_all valid_now schedule"
  by code_simp

section \<open>The two ways out of the lookup\<close>

text \<open>
  Claim C5.  If every entry of the array compares less than or equal to \<open>now\<close>, then
  \<open>next_arrival now\<close> is the first entry with its hour increased by exactly 24 and its
  minute unchanged, and that Clock-Point compares strictly greater than every wall-clock
  reading (hour in \<open>[0, 23]\<close>, minute in \<open>[0, 59]\<close>).  Otherwise \<open>next_arrival now\<close> is
  the first entry, in stored order, that compares strictly greater than \<open>now\<close>: the entry
  at some index \<open>k\<close>, with every entry before \<open>k\<close> less than or equal to \<open>now\<close>.  This
  holds for every \<open>now\<close>, whatever its fields.
\<close>

theorem next_arrival_cases:
  "(if \<forall>e \<in> set schedule. compare e now \<le>s 0
    then next_arrival now = Inr ((schedule ! 0)\<lparr>hour := hour (schedule ! 0) + 24\<rparr>) \<and>
         minute ((schedule ! 0)\<lparr>hour := hour (schedule ! 0) + 24\<rparr>) = minute (schedule ! 0) \<and>
         sint (hour ((schedule ! 0)\<lparr>hour := hour (schedule ! 0) + 24\<rparr>)) = sint (hour (schedule ! 0)) + 24 \<and>
         (\<forall>n. valid_now n \<longrightarrow> 0 <s compare ((schedule ! 0)\<lparr>hour := hour (schedule ! 0) + 24\<rparr>) n)
    else \<exists>k < length schedule.
           next_arrival now = Inr (schedule ! k) \<and> 0 <s compare (schedule ! k) now \<and>
           (\<forall>j < k. compare (schedule ! j) now \<le>s 0))"
proof (cases "next_arrival_loop schedule 0 now")
  case None
  then have "\<forall>j. j < length schedule \<longrightarrow> compare (schedule ! j) now \<le>s 0"
    by (simp add: loop_None_iff not_pos_iff)
  then have all: "\<forall>e \<in> set schedule. compare e now \<le>s 0"
    by (auto simp add: in_set_conv_nth)
  have "next_arrival now = Inr ((schedule ! 0)\<lparr>hour := hour (schedule ! 0) + 24\<rparr>)"
    using None by (simp add: next_arrival_None wrapped_first)
  moreover have "sint (hour ((schedule ! 0)\<lparr>hour := hour (schedule ! 0) + 24\<rparr>)) = sint (hour (schedule ! 0)) + 24"
    by (simp add: schedule_first day_time_def)
  moreover have "\<forall>n. valid_now n \<longrightarrow> 0 <s compare ((schedule ! 0)\<lparr>hour := hour (schedule ! 0) + 24\<rparr>) n"
    by (simp add: wrapped_first wrapped_after_valid)
  ultimately show ?thesis using all by simp
next
  case (Some e)
  from loop_Some [OF Some] obtain k where k:
    "k < length schedule" "e = schedule ! k" "0 <s compare (schedule ! k) now"
    "\<forall>j. j < k \<longrightarrow> \<not> 0 <s compare (schedule ! j) now"
    by auto
  from k(1,3) have "\<not> (\<forall>e \<in> set schedule. compare e now \<le>s 0)"
    using not_pos_iff nth_mem by blast
  moreover have "next_arrival now = Inr (schedule ! k)"
    using Some k(2) by (simp add: next_arrival_Some)
  moreover have "\<forall>j < k. compare (schedule ! j) now \<le>s 0"
    using k(4) by (simp add: not_pos_iff)
  ultimately show ?thesis using k(1,3) by auto
qed

text \<open>
  At 23:59 every entry is less than or equal to \<open>now\<close> and the result is \<open>(29, 47)\<close>; at
  6:06 the first two entries are not greater than \<open>now\<close> and the third is returned.
\<close>

theorem next_arrival_cases_witness:
  "list_all (\<lambda>e. compare e (day_time 23 59) \<le>s 0) schedule \<and>
   next_arrival (day_time 23 59) = Inr (day_time 29 47) \<and>
   0 <s compare (day_time 29 47) (day_time 23 59) \<and>
   \<not> list_all (\<lambda>e. compare e (day_time 6 6) \<le>s 0) schedule \<and>
   next_arrival (day_time 6 6) = Inr (schedule ! 2) \<and>
   0 <s compare (schedule ! 2) (day_time 6 6) \<and>
   compare (schedule ! 0) (day_time 6 6) \<le>s 0 \<and> compare (schedule ! 1) (day_time 6 6) \<le>s 0"
proof -
  have late: "\<forall>e \<in> set schedule. compare e (day_time 23 59) \<le>s 0" by code_simp
  have v: "valid_now (day_time 23 59)" by code_simp
  have early: "\<not> (\<forall>e \<in> set schedule. compare e (day_time 6 6) \<le>s 0)" by code_simp
  have r: "next_arrival (day_time 6 6) = Inr (schedule ! 2)" by code_simp
  have c: "0 <s compare (schedule ! 2) (day_time 6 6)"
    "compare (schedule ! 0) (day_time 6 6) \<le>s 0" "compare (schedule ! 1) (day_time 6 6) \<le>s 0"
    by code_simp+
  from next_arrival_cases [of "day_time 23 59"] late v
  have "next_arrival (day_time 23 59) = Inr (day_time 29 47) \<and>
    0 <s compare (day_time 29 47) (day_time 23 59)"
    by (simp add: wrapped_first)
  moreover from next_arrival_cases [of "day_time 6 6"] early
  have "\<exists>k < length schedule. next_arrival (day_time 6 6) = Inr (schedule ! k)"
    by auto
  ultimately show ?thesis using r c late early by (simp add: list_all_iff)
qed

section \<open>The number of minutes is not negative\<close>

text \<open>
  Claim C6 as stated asks only for minutes in \<open>[0, 59]\<close> and non-negative hours.  The
  fields are 32-bit integers, and for an hour as large as 35791395 the product by 60 no
  longer fits: \<open>next = (35791395, 0)\<close> compares greater than \<open>now = (0, 0)\<close>, and the
  difference computed is negative.
\<close>

theorem minutes_difference_overflow:
  "valid_minute (day_time 35791395 0) \<and> valid_minute (day_time 0 0) \<and>
   0 \<le>s hour (day_time 35791395 0) \<and> 0 \<le>s hour (day_time 0 0) \<and>
   0 <s compare (day_time 35791395 0) (day_time 0 0) \<and>
   sint (minutes_difference (day_time 35791395 0) (day_time 0 0)) = - 2147483596"
  by code_simp

text \<open>
  Claim C6, amended.  For Clock-Points \<open>next\<close> and \<open>now\<close> with minutes in \<open>[0, 59]\<close> and
  hours in \<open>[0, 35791393]\<close> (the hours whose minute count fits a 32-bit integer), if
  \<open>compare next now > 0\<close> then \<open>minutes_difference next now\<close> is not negative.  And for
  every wall-clock reading \<open>now\<close>, \<open>next_arrival now\<close> returns a Clock-Point \<open>a\<close> with
  \<open>minutes_difference a now\<close> in \<open>[0, 1440)\<close>.
\<close>

theorem minutes_difference_nonneg:
  "(valid_minute next \<and> valid_minute now \<and>
    0 \<le>s hour next \<and> hour next \<le>s 35791393 \<and> 0 \<le>s hour now \<and> hour now \<le>s 35791393 \<and>
    0 <s compare next now \<longrightarrow> 0 \<le>s minutes_difference next now) \<and>
   (valid_now now \<longrightarrow>
     (\<exists>a. next_arrival now = Inr a \<and>
          0 \<le>s minutes_difference a now \<and> minutes_difference a now <s 1440))"
proof (intro conjI impI)
  assume "valid_minute next \<and> valid_minute now \<and>
    0 \<le>s hour next \<and> hour next \<le>s 35791393 \<and> 0 \<le>s hour now \<and> hour now \<le>s 35791393 \<and>
    0 <s compare next now"
  then have "0 < sint (minutes_difference next now)"
    by (intro minutes_difference_pos) simp_all
  then show "0 \<le>s minutes_difference next now"
    by (simp add: word_sle_eq)
next
  assume "valid_now now"
  from next_arrival_difference [OF this]
  show "\<exists>a. next_arrival now = Inr a \<and>
          0 \<le>s minutes_difference a now \<and> minutes_difference a now <s 1440"
    by (auto simp add: word_sle_eq word_sless_alt)
qed

text \<open>At 23:59 the result \<open>(29, 47)\<close> is 348 minutes away.\<close>

theorem minutes_difference_nonneg_witness:
  "valid_minute (day_time 29 47) \<and> valid_minute (day_time 23 59) \<and>
   0 \<le>s hour (day_time 29 47) \<and> hour (day_time 29 47) \<le>s 35791393 \<and>
   0 \<le>s hour (day_time 23 59) \<and> hour (day_time 23 59) \<le>s 35791393 \<and>
   0 <s compare (day_time 29 47) (day_time 23 59) \<and>
   0 \<le>s minutes_difference (day_time 29 47) (day_time 23 59) \<and>
   valid_now (day_time 23 59) \<and>
   next_arrival (day_time 23 59) = Inr (day_time 29 47) \<and>
   minutes_difference (day_time 29 47) (day_time 23 59) <s 1440"
proof -
  have h: "valid_minute (day_time 29 47) \<and> valid_minute (day_time 23 59) \<and>
    0 \<le>s hour (day_time 29 47) \<and> hour (day_time 29 47) \<le>s 35791393 \<and>
    0 \<le>s hour (day_time 23 59) \<and> hour (day_time 23 59) \<le>s 35791393 \<and>
    0 <s compare (day_time 29 47) (day_time 23 59)"
    by code_simp
  have v: "valid_now (day_time 23 59)" by code_simp
  have r: "next_arrival (day_time 23 59) = Inr (day_time 29 47)" by code_simp
  from minutes_difference_nonneg [of "day_time 29 47" "day_time 23 59"] h v r
  show ?thesis by auto
qed

section \<open>The carry computation and the total-minutes formulation\<close>

text \<open>
  Claim C7.  The computation of \<open>minutes_difference\<close> with its borrow from the hours
  gives the same value as the total-minutes model
  \<open>(next.hour * 60 + next.minute) - (now.hour * 60 + now.minute)\<close>, for every pair of
  Clock-Points: the two are equal as functions.  No ordering of the arguments and no range
  of the minutes is needed; both sides are 32-bit computations.  (Within the range of
  \<open>minutes_difference_sint\<close> that value is also the difference of the minute counts as
  unbounded integers.)
\<close>

theorem minutes_difference_total_minutes:
  "minutes_difference next now = (hour next * 60 + minute next) - (hour now * 60 + minute now) \<and>
   minutes_difference = total_minutes_difference"
proof
  show "minutes_difference next now = (hour next * 60 + minute next) - (hour now * 60 + minute now)"
    by (simp add: md_ring total_minutes_difference_def total_minutes_def)
  show "minutes_difference = total_minutes_difference"
    by (intro ext) (rule md_ring)
qed

section \<open>The texts of the display\<close>

text \<open>
  Claim C8.  For every wall-clock reading \<open>now\<close>, with \<open>a\<close> the result of
  \<open>next_arrival now\<close> and \<open>mins = minutes_difference a now\<close>: the refresh succeeds; the
  counter text is \<open>60+m\<close> exactly when \<open>mins > 60\<close>, and it is the number followed by
  \<open>m\<close> exactly when \<open>mins \<le> 60\<close>; the hour shown in the details text, which is the hour
  of \<open>a\<close> reduced by 24 when it exceeds 24, lies in \<open>[0, 23]\<close>, and the details text is
  the bus number, the shown hour and the two-digit minute, not truncated.
\<close>

theorem update_content_texts:
  assumes "valid_now now"
  shows "\<exists>a c. next_arrival now = Inr a \<and> update_content now = Inr c \<and>
    (counter_text c = ''60+m'') = (60 <s minutes_difference a now) \<and>
    (counter_text c = fmt_d (minutes_difference a now) @ ''m'') = (minutes_difference a now \<le>s 60) \<and>
    (let h = (if 24 <s hour a then hour a - 24 else hour a)
     in 0 \<le>s h \<and> h \<le>s 23 \<and>
        details_text c = bus_number @ '':  '' @ fmt_d h @ '':'' @ fmt_02d (minute a))"
proof -
  from next_arrival_difference [OF assms] obtain a where
    a: "next_arrival now = Inr a" and pos: "0 < sint (minutes_difference a now)"
    by blast
  define mins where "mins = minutes_difference a now"
  define h where "h = (if 24 <s hour a then hour a - 24 else hour a)"
  define counter where
    "counter = (if 60 <s mins then ''60+m'' else snprintf 10 (fmt_d mins @ ''m''))"
  define details where
    "details = snprintf 20 (bus_number @ '':  '' @ fmt_d h @ '':'' @ fmt_02d (minute a))"
  define c where "c = \<lparr>counter_text = counter, details_text = details\<rparr>"
  have uc: "update_content now = Inr c"
    using a unfolding update_content_def update_content_in_def c_def counter_def details_def
      h_def mins_def next_arrival_def
    by (simp add: Let_def if_distrib [of hour] if_distrib [of minute])
  from next_arrival_range [OF a] have src: "a = day_time 29 47 \<or> a \<in> set schedule"
    by blast
  have hr: "0 \<le>s h" "h \<le>s 23"
    using shown_hour_range [OF src] by (simp_all add: h_def)
  have mr: "0 \<le> sint (minute a)" "sint (minute a) < 100"
    using result_minute_range [OF src] by simp_all
  have "length (fmt_d h) \<le> 2"
    using hr by (intro length_fmt_d) (simp_all add: word_sle_eq)
  moreover have "length (fmt_02d (minute a)) \<le> 2"
    using mr by (rule length_fmt_02d)
  ultimately have det: "details = bus_number @ '':  '' @ fmt_d h @ '':'' @ fmt_02d (minute a)"
    unfolding details_def by (intro snprintf_fits) (simp add: bus_number_def)
  have over: "counter = ''60+m''" if "60 <s mins"
    using that by (simp add: counter_def)
  have num: "counter = fmt_d mins @ ''m''" if "mins \<le>s 60"
  proof -
    from that have n: "\<not> 60 <s mins" by (simp add: signed.not_less)
    from that pos have "length (fmt_d mins) \<le> 2"
      by (intro length_fmt_d) (simp_all add: mins_def word_sle_eq)
    then have "snprintf 10 (fmt_d mins @ ''m'') = fmt_d mins @ ''m''"
      by (intro snprintf_fits) simp
    with n show ?thesis by (simp add: counter_def)
  qed
  have split: "60 <s mins \<or> mins \<le>s 60" by (auto simp add: signed.not_less [symmetric])
  have excl: "\<not> (60 <s mins \<and> mins \<le>s 60)" by (auto simp add: signed.not_less [symmetric])
  have c1: "(counter = ''60+m'') = (60 <s mins)"
    using over num split excl fmt_d_not_over [of mins] by metis
  have c2: "(counter = fmt_d mins @ ''m'') = (mins \<le>s 60)"
    using over num split excl fmt_d_not_over [of mins] by metis
  show ?thesis
    using a uc c1 c2 hr det
    by (intro exI [of _ a] exI [of _ c]) (simp add: c_def mins_def h_def Let_def)
qed

text \<open>The two forms of the counter: at 23:59 (348 minutes) and at 5:47 (19 minutes).\<close>

theorem update_content_texts_witness:
  "valid_now (day_time 23 59) \<and> valid_now (day_time 5 47) \<and>
   update_content (day_time 23 59) = Inr \<lparr>counter_text = ''60+m'', details_text = ''700:  5:47''\<rparr> \<and>
   update_content (day_time 5 47) = Inr \<lparr>counter_text = ''19m'', details_text = ''700:  6:06''\<rparr>"
proof -
  have v: "valid_now (day_time 23 59)" "valid_now (day_time 5 47)" by code_simp+
  have a: "next_arrival (day_time 23 59) = Inr (day_time 29 47)"
    "next_arrival (day_time 5 47) = Inr (day_time 6 6)" by code_simp+
  have m: "60 <s minutes_difference (day_time 29 47) (day_time 23 59)"
    "minutes_difference (day_time 6 6) (day_time 5 47) \<le>s 60"
    "fmt_d (minutes_difference (day_time 6 6) (day_time 5 47)) @ ''m'' = ''19m''" by code_simp+
  have d: "bus_number @ '':  '' @ fmt_d (29 - 24) @ '':'' @ fmt_02d 47 = ''700:  5:47''"
    "bus_number @ '':  '' @ fmt_d 6 @ '':'' @ fmt_02d 6 = ''700:  6:06''" by code_simp+
  have s: "(24::c_int) <s 29" "\<not> (24::c_int) <s 6" by code_simp+
  from update_content_texts [OF v(1)] a(1) m(1) d(1) s(1)
  have "update_content (day_time 23 59) = Inr \<lparr>counter_text = ''60+m'', details_text = ''700:  5:47''\<rparr>"
    by (auto simp add: day_time_def Let_def)
  moreover from update_content_texts [OF v(2)] a(2) m(2,3) d(2) s(2)
  have "update_content (day_time 5 47) = Inr \<lparr>counter_text = ''19m'', details_text = ''700:  6:06''\<rparr>"
    by (auto simp add: day_time_def Let_def)
  ultimately show ?thesis using v by simp
qed

section \<open>The entries after midnight\<close>

text \<open>
  Claim C10.  The last two entries of the array are \<open>(0, 18)\<close> and \<open>(0, 37)\<close>, and
  \<open>next_arrival\<close> returns neither of them, for any \<open>now\<close> (whatever its hour and
  minute).  Whenever one of them compares greater than \<open>now\<close>, the first entry \<open>(5, 47)\<close>
  does so too and is the result; and when the loop falls through, the result is
  \<open>(29, 47)\<close>.
\<close>

theorem trailing_entries_unreachable:
  "schedule ! 58 = day_time 0 18 \<and> schedule ! 59 = day_time 0 37 \<and>
   next_arrival now \<noteq> Inr (day_time 0 18) \<and> next_arrival now \<noteq> Inr (day_time 0 37) \<and>
   (0 <s compare (schedule ! 58) now \<longrightarrow> next_arrival now = Inr (schedule ! 0)) \<and>
   (0 <s compare (schedule ! 59) now \<longrightarrow> next_arrival now = Inr (schedule ! 0)) \<and>
   (next_arrival_loop schedule 0 now = None \<longrightarrow> next_arrival now = Inr (day_time 29 47))"
proof -
  have idx: "schedule ! 58 = day_time 0 18" "schedule ! 59 = day_time 0 37"
    by (simp_all add: schedule_def)
  have first: "next_arrival now = Inr (schedule ! 0)" if "0 <s compare (day_time 0 m) now" for m
  proof -
    from that have "0 <s compare (schedule ! 0) now"
      by (simp add: schedule_first early_entry_first)
    then have "next_arrival_loop schedule 0 now = Some (schedule ! 0)"
      by (simp add: loop_first_hit schedule_length)
    then show ?thesis by (rule next_arrival_Some)
  qed
  have ne: "day_time 5 47 \<noteq> day_time 0 m" "day_time 29 47 \<noteq> day_time 0 m" for m :: c_int
    by (simp_all add: day_time_def)
  have never: "next_arrival now \<noteq> Inr (day_time 0 m)" for m
  proof
    assume r: "next_arrival now = Inr (day_time 0 m)"
    from next_arrival_range [OF r] ne(2) [of m] have "0 <s compare (day_time 0 m) now"
      by auto
    from first [OF this] r have "schedule ! 0 = day_time 0 m" by simp
    with ne(1) [of m] show False by (simp add: schedule_first)
  qed
  show ?thesis
    using idx never first by (simp add: next_arrival_None)
qed

text \<open>
  At 0:10 both trailing entries compare greater than \<open>now\<close> and the result is
  \<open>(5, 47)\<close>; at 23:59 the loop falls through.
\<close>

theorem trailing_entries_unreachable_witness:
  "0 <s compare (schedule ! 58) (day_time 0 10) \<and> 0 <s compare (schedule ! 59) (day_time 0 10) \<and>
   next_arrival (day_time 0 10) = Inr (day_time 5 47) \<and>
   next_arrival_loop schedule 0 (day_time 23 59) = None \<and>
   next_arrival (day_time 23 59) = Inr (day_time 29 47)"
proof -
  have h: "0 <s compare (schedule ! 58) (day_time 0 10)" "0 <s compare (schedule ! 59) (day_time 0 10)"
    "next_arrival_loop schedule 0 (day_time 23 59) = None"
    by code_simp+
  from trailing_entries_unreachable [of "day_time 0 10"]
    trailing_entries_unreachable [of "day_time 23 59"] h
  show ?thesis by (simp add: schedule_first)
qed

end
